theory Spec2Isabelle
  imports Complex_Main
begin

section \<open>The stock market education game (stock_market_game.py)\<close>

text \<open>
  The program is one Streamlit script. Every user interaction runs the script from the
  top: it draws the page, and when the button "Submit Decision" was pressed it scores the
  decision, advances to the next scenario and asks for a rerun. The embedding below
  follows the script block by block. What the script receives from outside is made an
  argument: the values the widgets return in a run, the ten normal samples numpy draws
  for a chart, and the float64 arithmetic numpy computes with.
\<close>

subsection \<open>Python values\<close>

datatype error = IndexError | ValueError

text \<open>Sequencing of statements that may raise: the first exception ends the run.\<close>

definition and_then :: "error + 'a \<Rightarrow> ('a \<Rightarrow> error + 'b) \<Rightarrow> error + 'b" where
  "and_then m f = (case m of Inl e \<Rightarrow> Inl e | Inr v \<Rightarrow> f v)"

text \<open>
  \<^verbatim>\<open>xs[i]\<close> on a Python list or a numpy array: an index below zero counts from the
  end, an index outside the sequence raises IndexError.
\<close>

definition position :: "'a list \<Rightarrow> int \<Rightarrow> error + nat" where
  "position xs i =
     (if 0 \<le> i \<and> i < int (length xs) then Inr (nat i)
      else if i < 0 \<and> 0 \<le> int (length xs) + i then Inr (nat (int (length xs) + i))
      else Inl IndexError)"

definition getitem :: "'a list \<Rightarrow> int \<Rightarrow> error + 'a" where
  "getitem xs i = and_then (position xs i) (\<lambda>j. Inr (xs ! j))"

text \<open>\<^verbatim>\<open>str(n)\<close> for a Python int, as the f-strings of the page format it.\<close>

fun str_nat :: "nat \<Rightarrow> string" where
  "str_nat n =
     (if n < 10 then [char_of (48 + n)]
      else str_nat (n div 10) @ [char_of (48 + n mod 10)])"

definition str_int :: "int \<Rightarrow> string" where
  "str_int i = (if i < 0 then CHR ''-'' # str_nat (nat (- i)) else str_nat (nat i))"

subsection \<open>float64 arithmetic and numpy arrays\<close>

text \<open>
  The prices are numpy float64 values. Their arithmetic is an argument of the model, so
  that nothing proved below rests on a law that floating point does not have:
  \<open>fadd\<close> and \<open>fsub\<close> are float64 addition and subtraction, \<open>fmin\<close> and \<open>fmax\<close> the
  binary minimum and maximum, \<open>fconst\<close> the conversion of a Python int literal.
\<close>

record 'a float_ops =
  fadd :: "'a \<Rightarrow> 'a \<Rightarrow> 'a"
  fsub :: "'a \<Rightarrow> 'a \<Rightarrow> 'a"
  fmin :: "'a \<Rightarrow> 'a \<Rightarrow> 'a"
  fmax :: "'a \<Rightarrow> 'a \<Rightarrow> 'a"
  fconst :: "int \<Rightarrow> 'a"

text \<open>Exact arithmetic on the reals, to run the model on concrete prices.\<close>

definition exact_ops :: "real float_ops" where
  "exact_ops = \<lparr>fadd = (+), fsub = (-), fmin = min, fmax = max, fconst = of_int\<rparr>"

text \<open>\<^verbatim>\<open>np.arange(n)\<close>.\<close>

definition arange :: "nat \<Rightarrow> int list" where
  "arange n = map int [0..<n]"

text \<open>
  \<^verbatim>\<open>np.random.normal(loc=100, scale=1, size=n)\<close>: the samples are whatever the
  generator yields, \<open>draws k\<close> being the k-th of them; the array has \<open>n\<close> entries.
\<close>

definition random_normal :: "(nat \<Rightarrow> 'a) \<Rightarrow> nat \<Rightarrow> 'a list" where
  "random_normal draws n = map draws [0..<n]"

text \<open>\<^verbatim>\<open>.cumsum()\<close>: the running sums, left to right.\<close>

fun running :: "'a float_ops \<Rightarrow> 'a \<Rightarrow> 'a list \<Rightarrow> 'a list" where
  "running ops acc [] = []"
| "running ops acc (v # vs) = fadd ops acc v # running ops (fadd ops acc v) vs"

definition cumsum :: "'a float_ops \<Rightarrow> 'a list \<Rightarrow> 'a list" where
  "cumsum ops vs = (case vs of [] \<Rightarrow> [] | v # rest \<Rightarrow> v # running ops v rest)"

text \<open>\<^verbatim>\<open>price[i] += k\<close> and \<^verbatim>\<open>price[i] -= k\<close> on an array, \<open>k\<close> an int literal.\<close>

definition iadd_item :: "'a float_ops \<Rightarrow> 'a list \<Rightarrow> int \<Rightarrow> int \<Rightarrow> error + 'a list" where
  "iadd_item ops price i k =
     and_then (position price i)
       (\<lambda>j. Inr (price[j := fadd ops (price ! j) (fconst ops k)]))"

definition isub_item :: "'a float_ops \<Rightarrow> 'a list \<Rightarrow> int \<Rightarrow> int \<Rightarrow> error + 'a list" where
  "isub_item ops price i k =
     and_then (position price i)
       (\<lambda>j. Inr (price[j := fsub ops (price ! j) (fconst ops k)]))"

text \<open>
  \<^verbatim>\<open>price[n:] += k\<close> and \<^verbatim>\<open>price[n:] -= k\<close> for \<open>n \<ge> 0\<close>: a slice never raises, it is
  empty when \<open>n\<close> is past the end.
\<close>

definition iadd_from :: "'a float_ops \<Rightarrow> 'a list \<Rightarrow> nat \<Rightarrow> int \<Rightarrow> 'a list" where
  "iadd_from ops price n k = take n price @ map (\<lambda>p. fadd ops p (fconst ops k)) (drop n price)"

definition isub_from :: "'a float_ops \<Rightarrow> 'a list \<Rightarrow> nat \<Rightarrow> int \<Rightarrow> 'a list" where
  "isub_from ops price n k = take n price @ map (\<lambda>p. fsub ops p (fconst ops k)) (drop n price)"

text \<open>\<^verbatim>\<open>a.min()\<close> and \<^verbatim>\<open>a.max()\<close>: ValueError on an empty array.\<close>

definition array_min :: "'a float_ops \<Rightarrow> 'a list \<Rightarrow> error + 'a" where
  "array_min ops a = (case a of [] \<Rightarrow> Inl ValueError | v # vs \<Rightarrow> Inr (foldl (fmin ops) v vs))"

definition array_max :: "'a float_ops \<Rightarrow> 'a list \<Rightarrow> error + 'a" where
  "array_max ops a = (case a of [] \<Rightarrow> Inl ValueError | v # vs \<Rightarrow> Inr (foldl (fmax ops) v vs))"

subsection \<open>The page\<close>

text \<open>What is drawn on the axes of a figure, in the order of the calls.\<close>

datatype 'a artist =
    Plot "int list" "'a list" string
  | Axhline 'a string string string
  | Axvspan real real string real string
  | Set_title string
  | Legend

text \<open>
  The elements a run puts on the page, one constructor for each Streamlit call of the
  script. A radio carries its label, its options and its key.
\<close>

datatype 'a element =
    Title string
  | Subheader string
  | Markdown string
  | Expander string "'a element list"
  | Header string
  | Write string
  | Pyplot "'a artist list"
  | Radio string "string list" string
  | Button string
  | Success string
  | Error string

subsection \<open>Concepts, session state, scenarios (lines 9 to 56)\<close>

definition concepts :: "(string \<times> string) list" where
  "concepts =
     [(''Liquidity Grab'', ''A liquidity grab happens when price moves beyond a recent high/low to trap traders, then reverses.''),
      (''FVG'', ''Fair Value Gap (FVG) is an imbalance between buyers and sellers visible as a gap in price.''),
      (''BOS'', ''Break of Structure (BOS) occurs when price breaks a key high or low, indicating a trend change.''),
      (''ORB'', ''Opening Range Breakout (ORB) is a strategy using the high and low of the first few minutes after market open.'')]"

record session_state =
  balance :: int
  scenario_index :: int

text \<open>
  Lines 17 to 21: in a new session neither key exists and both are created; in every
  later run of the session the guards find the keys and change nothing.
\<close>

definition initial_state :: session_state where
  "initial_state = \<lparr>balance = 10000, scenario_index = 0\<rparr>"

record scenario =
  name :: string
  description :: string
  entry :: string
  good_exit :: string
  bad_exit :: string
  chart :: string

definition scenarios :: "scenario list" where
  "scenarios =
     [\<lparr>name = ''Liquidity Grab - Short Setup'',
       description = ''Price swept above previous high and closed back inside range.'',
       entry = ''short'',
       good_exit = ''at previous low'',
       bad_exit = ''holding through reversal'',
       chart = ''liquidity''\<rparr>,
      \<lparr>name = ''FVG Long Setup'',
       description = ''Price pulled into FVG and bounced.'',
       entry = ''long'',
       good_exit = ''at supply zone'',
       bad_exit = ''holding through FVG close'',
       chart = ''fvg''\<rparr>,
      \<lparr>name = ''BOS Confirmation'',
       description = ''Structure broke to upside after a higher low.'',
       entry = ''long'',
       good_exit = ''at next swing high'',
       bad_exit = ''entering before BOS'',
       chart = ''bos''\<rparr>,
      \<lparr>name = ''ORB Failure'',
       description = ''Price broke opening range high but reversed hard.'',
       entry = ''long'',
       good_exit = ''quick scalp on breakout'',
       bad_exit = ''holding during pullback'',
       chart = ''orb''\<rparr>]"

subsection \<open>plot_chart (lines 59 to 94)\<close>

text \<open>
  The base series is the cumulative sum of ten normal samples (line 62). The function
  neither reads nor writes the session state; what it leaves behind is the figure that
  \<^verbatim>\<open>st.pyplot\<close> puts on the page.
\<close>

definition base_price :: "'a float_ops \<Rightarrow> (nat \<Rightarrow> 'a) \<Rightarrow> 'a list" where
  "base_price ops draws = cumsum ops (random_normal draws 10)"

definition plot_chart :: "'a float_ops \<Rightarrow> (nat \<Rightarrow> 'a) \<Rightarrow> string \<Rightarrow> error + 'a element" where
  "plot_chart ops draws chart_type =
     (let x = arange 10;
          price = base_price ops draws
      in
      if chart_type = ''liquidity'' then
        and_then (iadd_item ops price 6 5) (\<lambda>price.
        and_then (isub_item ops price 7 6) (\<lambda>price.
        and_then (getitem price 5) (\<lambda>previous_high.
          Inr (Pyplot [Plot x price ''Price'',
                       Axhline previous_high ''red'' ''--'' ''Previous High'',
                       Set_title ''Liquidity Grab Example'',
                       Legend]))))
      else if chart_type = ''fvg'' then
        and_then (iadd_item ops price 4 5) (\<lambda>price.
        and_then (iadd_item ops price 5 7) (\<lambda>price.
        and_then (iadd_item ops price 6 3) (\<lambda>price.
          Inr (Pyplot [Plot x price ''Price'',
                       Axvspan 4.5 5.5 ''yellow'' 0.3 ''FVG'',
                       Set_title ''FVG Example'',
                       Legend]))))
      else if chart_type = ''bos'' then
        (let price = iadd_from ops price 5 6 in
         and_then (getitem price 4) (\<lambda>structure_break.
           Inr (Pyplot [Plot x price ''Price'',
                        Axhline structure_break ''green'' ''--'' ''Structure Break'',
                        Set_title ''Break of Structure (BOS)'',
                        Legend])))
      else if chart_type = ''orb'' then
        and_then (array_min ops (take 3 price)) (\<lambda>orb_low.
        and_then (array_max ops (take 3 price)) (\<lambda>orb_high.
          (let price = isub_from ops price 4 4 in
           Inr (Pyplot [Plot x price ''Price'',
                        Axhline orb_low ''purple'' ''--'' ''ORB Low'',
                        Axhline orb_high ''orange'' ''--'' ''ORB High'',
                        Set_title ''Opening Range Breakout (ORB)'',
                        Legend]))))
      else Inr (Pyplot [Legend]))"

text \<open>The y data of the lines plotted on a page, in order.\<close>

fun plotted :: "'a element \<Rightarrow> 'a list list" where
  "plotted (Pyplot fig) = concat (map (\<lambda>a. case a of Plot x y l \<Rightarrow> [y] | _ \<Rightarrow> []) fig)"
| "plotted _ = []"

subsection \<open>show_game (lines 97 to 141)\<close>

text \<open>
  What the widgets return in one run: the selected entry, the selected exit strategy,
  and whether the button was pressed.
\<close>

record widgets =
  entry_choice :: string
  exit_choice :: string
  submit :: bool

text \<open>
  The result of one run: the page, the session state it leaves, and whether it ended in
  \<^verbatim>\<open>st.experimental_rerun()\<close>.
\<close>

record 'a run =
  rendered :: "'a element list"
  state :: session_state
  rerun :: bool

text \<open>Lines 98 to 106: title, balance and the concept glossary.\<close>

definition book :: string where
  "book = [CHR 0xF0, CHR 0x9F, CHR 0x93, CHR 0x98]"

definition page_top :: "session_state \<Rightarrow> 'a element list" where
  "page_top s =
     [Title ''Stock Market Game with Visual Learning'',
      Subheader (''Balance: $'' @ str_int (balance s)),
      Markdown ''---'',
      Subheader (book @ '' Market Concepts'')]
     @ map (\<lambda>(key, val). Expander key [Write val]) concepts
     @ [Markdown ''---'']"

text \<open>
  Lines 119 to 130, the scoring rule: the result text and the session state with the
  balance adjusted.
\<close>

definition submit_decision :: "scenario \<Rightarrow> string \<Rightarrow> string \<Rightarrow> session_state \<Rightarrow> string \<times> session_state" where
  "submit_decision sc entry_c exit_c s =
     (if entry_c = ''skip'' then (''Skipped the trade.'', s)
      else if entry_c \<noteq> entry sc then
        (''Wrong entry type. You entered against the setup.'', s\<lparr>balance := balance s - 300\<rparr>)
      else if exit_c = ''smart'' then
        (''Smart exit at '' @ good_exit sc @ ''!'', s\<lparr>balance := balance s + 500\<rparr>)
      else
        (''Poor exit at '' @ bad_exit sc @ ''!'', s\<lparr>balance := balance s - 200\<rparr>))"

text \<open>Lines 136 to 141: the game-over screen.\<close>

definition game_over :: "session_state \<Rightarrow> 'a element list" where
  "game_over s =
     [Header ''Game Over'',
      Subheader (''Final Balance: $'' @ str_int (balance s)),
      (if balance s > 10000 then Success ''Well done! You made profitable decisions.''
       else Error ''You need more practice. Review the concepts and try again.'')]"

text \<open>
  Lines 110 to 118: the scenario, its chart (the element \<open>fig\<close> that plot_chart put on
  the page), the two radios and the button.
\<close>

definition scenario_page :: "session_state \<Rightarrow> scenario \<Rightarrow> 'a element \<Rightarrow> 'a element list" where
  "scenario_page s sc fig =
     [Header (name sc),
      Write (description sc),
      fig,
      Radio ''Choose your entry:'' [''long'', ''short'', ''skip'']
        (''entry_'' @ str_int (scenario_index s)),
      Radio ''Choose your exit strategy:'' [''smart'', ''greedy'']
        (''exit_'' @ str_int (scenario_index s)),
      Button ''Submit Decision'']"

definition show_game ::
  "'a float_ops \<Rightarrow> (nat \<Rightarrow> 'a) \<Rightarrow> session_state \<Rightarrow> widgets \<Rightarrow> error + 'a run" where
  "show_game ops draws s w =
     (if scenario_index s < int (length scenarios) then
        and_then (getitem scenarios (scenario_index s)) (\<lambda>sc.
        and_then (plot_chart ops draws (chart sc)) (\<lambda>fig.
          if submit w then
            (case submit_decision sc (entry_choice w) (exit_choice w) s of
               (result, s') \<Rightarrow>
                 Inr \<lparr>rendered = page_top s @ scenario_page s sc fig @ [Success result],
                      state = s'\<lparr>scenario_index := scenario_index s' + 1\<rparr>,
                      rerun = True\<rparr>)
          else
            Inr \<lparr>rendered = page_top s @ scenario_page s sc fig, state = s, rerun = False\<rparr>))
      else
        Inr \<lparr>rendered = page_top s @ game_over s, state = s, rerun = False\<rparr>)"

text \<open>The banners of a page: what \<^verbatim>\<open>st.success\<close> and \<^verbatim>\<open>st.error\<close> showed.\<close>

fun is_banner :: "'a element \<Rightarrow> bool" where
  "is_banner (Success m) = True"
| "is_banner (Error m) = True"
| "is_banner _ = False"

definition banners :: "'a element list \<Rightarrow> 'a element list" where
  "banners page = filter is_banner page"

subsection \<open>A session\<close>

text \<open>
  A session is a sequence of runs of the script, each with the widget values and the
  samples of that run; the state one run leaves is the state the next one finds. The
  rerun a submit asks for is one more run, with the button not pressed.
\<close>

fun play ::
  "'a float_ops \<Rightarrow> session_state \<Rightarrow> ((nat \<Rightarrow> 'a) \<times> widgets) list \<Rightarrow> error + session_state" where
  "play ops s [] = Inr s"
| "play ops s ((draws, w) # rest) =
     and_then (show_game ops draws s w) (\<lambda>r. play ops (state r) rest)"

text \<open>The decisions of a session: the widget values of the runs with the button pressed.\<close>

definition presses :: "((nat \<Rightarrow> 'a) \<times> widgets) list \<Rightarrow> widgets list" where
  "presses runs = filter submit (map snd runs)"

subsection \<open>The scoring table of the specification\<close>

text \<open>
  The balance delta of a submit as section 4.1 of the specification words it: 0 for
  skip, otherwise -300 for an entry that is not the scenario's, otherwise +500 for the
  exit choice smart, and -200 for the other exit choice. It is compared below with what
  submit_decision does to the balance.
\<close>

definition spec_balance_delta :: "scenario \<Rightarrow> string \<Rightarrow> string \<Rightarrow> int" where
  "spec_balance_delta sc entry_c exit_c =
     (if entry_c = ''skip'' then 0
      else if entry_c \<noteq> entry sc then - 300
      else if exit_c = ''smart'' then 500
      else - 200)"

text \<open>The sum of the deltas of a sequence of decisions, the first one on the first scenario.\<close>

definition spec_total_delta :: "scenario list \<Rightarrow> widgets list \<Rightarrow> int" where
  "spec_total_delta scs ws =
     sum_list (map (\<lambda>(sc, w). spec_balance_delta sc (entry_choice w) (exit_choice w)) (zip scs ws))"

section \<open>Properties\<close>

subsection \<open>Indexing and arrays\<close>

lemma position_in_range: "0 \<le> i \<Longrightarrow> i < int (length xs) \<Longrightarrow> position xs i = Inr (nat i)"
  by (simp add: position_def)

lemma getitem_in_range: "0 \<le> i \<Longrightarrow> i < int (length xs) \<Longrightarrow> getitem xs i = Inr (xs ! nat i)"
  by (simp add: getitem_def and_then_def position_in_range)

lemma iadd_item_in_range:
  "0 \<le> i \<Longrightarrow> i < int (length price) \<Longrightarrow>
   iadd_item ops price i k = Inr (price[nat i := fadd ops (price ! nat i) (fconst ops k)])"
  by (simp add: iadd_item_def and_then_def position_in_range)

lemma isub_item_in_range:
  "0 \<le> i \<Longrightarrow> i < int (length price) \<Longrightarrow>
   isub_item ops price i k = Inr (price[nat i := fsub ops (price ! nat i) (fconst ops k)])"
  by (simp add: isub_item_def and_then_def position_in_range)

lemma array_min_nonempty: "a \<noteq> [] \<Longrightarrow> \<exists>v. array_min ops a = Inr v"
  by (cases a) (simp_all add: array_min_def)

lemma array_max_nonempty: "a \<noteq> [] \<Longrightarrow> \<exists>v. array_max ops a = Inr v"
  by (cases a) (simp_all add: array_max_def)

lemma length_running: "length (running ops acc vs) = length vs"
  by (induction vs arbitrary: acc) simp_all

lemma length_cumsum: "length (cumsum ops vs) = length vs"
  by (simp add: cumsum_def length_running split: list.splits)

lemma length_base_price: "length (base_price ops draws) = 10"
  by (simp add: base_price_def random_normal_def length_cumsum)

subsection \<open>plot_chart\<close>

lemma plot_chart_liquidity:
  "plot_chart ops draws ''liquidity'' =
     Inr (Pyplot [Plot (arange 10)
                    ((base_price ops draws)
                       [6 := fadd ops (base_price ops draws ! 6) (fconst ops 5),
                        7 := fsub ops (base_price ops draws ! 7) (fconst ops 6)])
                    ''Price'',
                  Axhline (base_price ops draws ! 5) ''red'' ''--'' ''Previous High'',
                  Set_title ''Liquidity Grab Example'',
                  Legend])"
  by (simp add: plot_chart_def Let_def iadd_item_in_range isub_item_in_range getitem_in_range
      length_base_price and_then_def)

text \<open>Whatever the chart kind and the samples, plot_chart raises nothing.\<close>

lemma plot_chart_total: "\<exists>fig. plot_chart ops draws chart_type = Inr (Pyplot fig)"
proof -
  have len: "length (base_price ops draws) = 10"
    by (rule length_base_price)
  then have "take 3 (base_price ops draws) \<noteq> []"
    by auto
  then obtain lo hi where
    "array_min ops (take 3 (base_price ops draws)) = Inr lo"
    "array_max ops (take 3 (base_price ops draws)) = Inr hi"
    using array_min_nonempty array_max_nonempty by blast
  then show ?thesis
    by (simp add: plot_chart_def Let_def iadd_item_in_range isub_item_in_range getitem_in_range
        len and_then_def iadd_from_def)
qed

subsection \<open>One run of show_game\<close>

lemma length_scenarios: "length scenarios = 4"
  by (simp add: scenarios_def)

lemma scenarios_entry: "i < 4 \<Longrightarrow> entry (scenarios ! i) = ''long'' \<or> entry (scenarios ! i) = ''short''"
proof -
  assume "i < 4"
  then have "i = 0 \<or> i = 1 \<or> i = 2 \<or> i = 3"
    by arith
  then show ?thesis
    by (auto simp: scenarios_def)
qed

lemma submit_decision_index: "scenario_index (snd (submit_decision sc e x s)) = scenario_index s"
  by (simp add: submit_decision_def)

lemma banners_page_top: "banners (page_top s) = []"
  by (simp add: banners_def page_top_def concepts_def)

lemma banners_scenario_page: "banners (scenario_page s sc (Pyplot fig)) = []"
  by (simp add: banners_def scenario_page_def)

lemma banners_append: "banners (p @ q) = banners p @ banners q"
  by (simp add: banners_def)

text \<open>The two branches of show_game, for an index that is not negative.\<close>

lemma show_game_playing:
  assumes "0 \<le> scenario_index s" and "scenario_index s < 4"
  shows "\<exists>fig. show_game ops draws s w =
     Inr (if submit w then
            \<lparr>rendered = page_top s @ scenario_page s (scenarios ! nat (scenario_index s)) (Pyplot fig)
               @ [Success (fst (submit_decision (scenarios ! nat (scenario_index s))
                                  (entry_choice w) (exit_choice w) s))],
             state = (snd (submit_decision (scenarios ! nat (scenario_index s))
                             (entry_choice w) (exit_choice w) s))
                       \<lparr>scenario_index := scenario_index s + 1\<rparr>,
             rerun = True\<rparr>
          else
            \<lparr>rendered = page_top s @ scenario_page s (scenarios ! nat (scenario_index s)) (Pyplot fig),
             state = s, rerun = False\<rparr>)"
proof -
  obtain fig where "plot_chart ops draws (chart (scenarios ! nat (scenario_index s))) = Inr (Pyplot fig)"
    using plot_chart_total by blast
  moreover have "getitem scenarios (scenario_index s) = Inr (scenarios ! nat (scenario_index s))"
    using assms by (simp add: getitem_in_range length_scenarios)
  ultimately show ?thesis
    using assms
    by (intro exI [where x = fig])
      (simp add: show_game_def length_scenarios and_then_def submit_decision_index
        case_prod_beta)
qed

lemma show_game_over:
  assumes "4 \<le> scenario_index s"
  shows "show_game ops draws s w = Inr \<lparr>rendered = page_top s @ game_over s, state = s, rerun = False\<rparr>"
  using assms by (simp add: show_game_def length_scenarios)

subsection \<open>The scoring rule\<close>

text \<open>
  C1. While a scenario is shown, a submitted entry of long or short that is not the
  scenario's entry shows the banner "Wrong entry type. You entered against the setup."
  and takes exactly 300 off the balance. This holds for every exit choice \<open>x\<close>, and the
  run is the same for any two exit choices.
\<close>

theorem wrong_entry_loses_300:
  assumes "0 \<le> scenario_index s" and "scenario_index s < int (length scenarios)"
    and "e = ''long'' \<or> e = ''short''"
    and "e \<noteq> entry (scenarios ! nat (scenario_index s))"
  shows "(\<exists>r. show_game ops draws s \<lparr>entry_choice = e, exit_choice = x, submit = True\<rparr> = Inr r
            \<and> banners (rendered r) = [Success ''Wrong entry type. You entered against the setup.'']
            \<and> balance (state r) = balance s - 300)
         \<and> show_game ops draws s \<lparr>entry_choice = e, exit_choice = x, submit = True\<rparr>
           = show_game ops draws s \<lparr>entry_choice = e, exit_choice = x', submit = True\<rparr>"
proof -
  have idx: "scenario_index s < 4"
    using assms(2) by (simp add: length_scenarios)
  have skip: "e \<noteq> ''skip''"
    using assms(3) by auto
  obtain fig where
    "show_game ops draws s \<lparr>entry_choice = e, exit_choice = x, submit = True\<rparr> =
       Inr \<lparr>rendered = page_top s @ scenario_page s (scenarios ! nat (scenario_index s)) (Pyplot fig)
              @ [Success ''Wrong entry type. You entered against the setup.''],
            state = s\<lparr>balance := balance s - 300, scenario_index := scenario_index s + 1\<rparr>,
            rerun = True\<rparr>"
    using show_game_playing [OF assms(1) idx, of ops draws "\<lparr>entry_choice = e, exit_choice = x, submit = True\<rparr>"]
      skip assms(4)
    by (auto simp: submit_decision_def)
  then have first: "\<exists>r. show_game ops draws s \<lparr>entry_choice = e, exit_choice = x, submit = True\<rparr> = Inr r
      \<and> banners (rendered r) = [Success ''Wrong entry type. You entered against the setup.'']
      \<and> balance (state r) = balance s - 300"
    by (simp add: banners_append banners_page_top banners_scenario_page) (simp add: banners_def)
  have same: "submit_decision (scenarios ! nat (scenario_index s)) e x s
      = submit_decision (scenarios ! nat (scenario_index s)) e x' s"
    using skip assms(4) by (simp add: submit_decision_def)
  have "show_game ops draws s \<lparr>entry_choice = e, exit_choice = x, submit = True\<rparr>
      = show_game ops draws s \<lparr>entry_choice = e, exit_choice = x', submit = True\<rparr>"
    using assms(1,2) by (simp add: show_game_def getitem_in_range and_then_def same cong: sum.case_cong)
  with first show ?thesis
    by simp
qed

theorem wrong_entry_loses_300_witness:
  "(0 \<le> scenario_index initial_state \<and> scenario_index initial_state < int (length scenarios)
    \<and> ''long'' \<noteq> entry (scenarios ! nat (scenario_index initial_state)))
   \<and> (\<exists>r. show_game exact_ops (\<lambda>k. 100) initial_state
             \<lparr>entry_choice = ''long'', exit_choice = ''smart'', submit = True\<rparr> = Inr r
          \<and> banners (rendered r) = [Success ''Wrong entry type. You entered against the setup.'']
          \<and> balance (state r) = 9700)
   \<and> show_game exact_ops (\<lambda>k. 100) initial_state
        \<lparr>entry_choice = ''long'', exit_choice = ''smart'', submit = True\<rparr>
      = show_game exact_ops (\<lambda>k. 100) initial_state
        \<lparr>entry_choice = ''long'', exit_choice = ''greedy'', submit = True\<rparr>"
proof -
  have a: "0 \<le> scenario_index initial_state"
    by (simp add: initial_state_def)
  have b: "scenario_index initial_state < int (length scenarios)"
    by (simp add: initial_state_def scenarios_def)
  have c: "''long'' = ''long'' \<or> ''long'' = ''short''"
    by simp
  have d: "''long'' \<noteq> entry (scenarios ! nat (scenario_index initial_state))"
    by (simp add: initial_state_def scenarios_def)
  have "balance initial_state - 300 = 9700"
    by (simp add: initial_state_def)
  with a b d show ?thesis
    using wrong_entry_loses_300 [OF a b c d, where ops = exact_ops and draws = "\<lambda>k. 100"
        and x = "''smart''" and x' = "''greedy''"]
    by metis
qed

text \<open>
  C2. While a scenario is shown, submitting the scenario's own entry with exit choice
  smart shows "Smart exit at " followed by the scenario's good exit and "!", and adds
  exactly 500 to the balance; with exit choice greedy it shows "Poor exit at " followed
  by the scenario's bad exit and "!", and takes exactly 200 off the balance.
\<close>

theorem correct_entry_smart_and_greedy:
  assumes "0 \<le> scenario_index s" and "scenario_index s < int (length scenarios)"
    and "sc = scenarios ! nat (scenario_index s)"
  shows "(\<exists>r. show_game ops draws s \<lparr>entry_choice = entry sc, exit_choice = ''smart'', submit = True\<rparr> = Inr r
            \<and> banners (rendered r) = [Success (''Smart exit at '' @ good_exit sc @ ''!'')]
            \<and> balance (state r) = balance s + 500)
       \<and> (\<exists>r. show_game ops draws s \<lparr>entry_choice = entry sc, exit_choice = ''greedy'', submit = True\<rparr> = Inr r
            \<and> banners (rendered r) = [Success (''Poor exit at '' @ bad_exit sc @ ''!'')]
            \<and> balance (state r) = balance s - 200)"
proof -
  have idx: "scenario_index s < 4"
    using assms(2) by (simp add: length_scenarios)
  then have "nat (scenario_index s) < 4"
    using assms(1) by simp
  then have skip: "entry sc \<noteq> ''skip''"
    using scenarios_entry [of "nat (scenario_index s)"] assms(3) by auto
  obtain fig where
    "show_game ops draws s \<lparr>entry_choice = entry sc, exit_choice = ''smart'', submit = True\<rparr> =
       Inr \<lparr>rendered = page_top s @ scenario_page s sc (Pyplot fig)
              @ [Success (''Smart exit at '' @ good_exit sc @ ''!'')],
            state = s\<lparr>balance := balance s + 500, scenario_index := scenario_index s + 1\<rparr>,
            rerun = True\<rparr>"
    using show_game_playing [OF assms(1) idx, of ops draws
        "\<lparr>entry_choice = entry sc, exit_choice = ''smart'', submit = True\<rparr>"] skip assms(3)
    by (auto simp: submit_decision_def)
  then have smart: "\<exists>r. show_game ops draws s
        \<lparr>entry_choice = entry sc, exit_choice = ''smart'', submit = True\<rparr> = Inr r
      \<and> banners (rendered r) = [Success (''Smart exit at '' @ good_exit sc @ ''!'')]
      \<and> balance (state r) = balance s + 500"
    by (simp add: banners_append banners_page_top banners_scenario_page) (simp add: banners_def)
  obtain fig' where
    "show_game ops draws s \<lparr>entry_choice = entry sc, exit_choice = ''greedy'', submit = True\<rparr> =
       Inr \<lparr>rendered = page_top s @ scenario_page s sc (Pyplot fig')
              @ [Success (''Poor exit at '' @ bad_exit sc @ ''!'')],
            state = s\<lparr>balance := balance s - 200, scenario_index := scenario_index s + 1\<rparr>,
            rerun = True\<rparr>"
    using show_game_playing [OF assms(1) idx, of ops draws
        "\<lparr>entry_choice = entry sc, exit_choice = ''greedy'', submit = True\<rparr>"] skip assms(3)
    by (auto simp: submit_decision_def)
  then have greedy: "\<exists>r. show_game ops draws s
        \<lparr>entry_choice = entry sc, exit_choice = ''greedy'', submit = True\<rparr> = Inr r
      \<and> banners (rendered r) = [Success (''Poor exit at '' @ bad_exit sc @ ''!'')]
      \<and> balance (state r) = balance s - 200"
    by (simp add: banners_append banners_page_top banners_scenario_page) (simp add: banners_def)
  from smart greedy show ?thesis
    by (rule conjI)
qed

theorem correct_entry_smart_and_greedy_witness:
  "(0 \<le> scenario_index initial_state \<and> scenario_index initial_state < int (length scenarios)
    \<and> entry (scenarios ! nat (scenario_index initial_state)) = ''short'')
   \<and> (\<exists>r. show_game exact_ops (\<lambda>k. 100) initial_state
             \<lparr>entry_choice = ''short'', exit_choice = ''smart'', submit = True\<rparr> = Inr r
          \<and> banners (rendered r) = [Success ''Smart exit at at previous low!'']
          \<and> balance (state r) = 10500)
   \<and> (\<exists>r. show_game exact_ops (\<lambda>k. 100) initial_state
             \<lparr>entry_choice = ''short'', exit_choice = ''greedy'', submit = True\<rparr> = Inr r
          \<and> banners (rendered r) = [Success ''Poor exit at holding through reversal!'']
          \<and> balance (state r) = 9800)"
proof -
  have a: "0 \<le> scenario_index initial_state"
    by (simp add: initial_state_def)
  have b: "scenario_index initial_state < int (length scenarios)"
    by (simp add: initial_state_def scenarios_def)
  have c: "\<lparr>name = ''Liquidity Grab - Short Setup'',
       description = ''Price swept above previous high and closed back inside range.'',
       entry = ''short'',
       good_exit = ''at previous low'',
       bad_exit = ''holding through reversal'',
       chart = ''liquidity''\<rparr> = scenarios ! nat (scenario_index initial_state)"
    by (simp add: initial_state_def scenarios_def)
  have d: "entry (scenarios ! nat (scenario_index initial_state)) = ''short''"
    by (simp add: initial_state_def scenarios_def)
  show ?thesis
    using correct_entry_smart_and_greedy [OF a b c, where ops = exact_ops and draws = "\<lambda>k. 100"] a b d
    by (simp add: initial_state_def)
qed

text \<open>
  C3. While a scenario is shown, submitting the entry choice skip shows the banner
  "Skipped the trade." and leaves the balance as it was, for every exit choice \<open>x\<close>.
\<close>

theorem skip_keeps_balance:
  assumes "0 \<le> scenario_index s" and "scenario_index s < int (length scenarios)"
  shows "\<exists>r. show_game ops draws s \<lparr>entry_choice = ''skip'', exit_choice = x, submit = True\<rparr> = Inr r
            \<and> banners (rendered r) = [Success ''Skipped the trade.'']
            \<and> balance (state r) - balance s = 0"
proof -
  have idx: "scenario_index s < 4"
    using assms(2) by (simp add: length_scenarios)
  obtain fig where
    "show_game ops draws s \<lparr>entry_choice = ''skip'', exit_choice = x, submit = True\<rparr> =
       Inr \<lparr>rendered = page_top s @ scenario_page s (scenarios ! nat (scenario_index s)) (Pyplot fig)
              @ [Success ''Skipped the trade.''],
            state = s\<lparr>scenario_index := scenario_index s + 1\<rparr>,
            rerun = True\<rparr>"
    using show_game_playing [OF assms(1) idx, of ops draws
        "\<lparr>entry_choice = ''skip'', exit_choice = x, submit = True\<rparr>"]
    by (auto simp: submit_decision_def)
  then show ?thesis
    by (simp add: banners_append banners_page_top banners_scenario_page) (simp add: banners_def)
qed

theorem skip_keeps_balance_witness:
  "(0 \<le> scenario_index initial_state \<and> scenario_index initial_state < int (length scenarios))
   \<and> (\<exists>r. show_game exact_ops (\<lambda>k. 100) initial_state
             \<lparr>entry_choice = ''skip'', exit_choice = ''greedy'', submit = True\<rparr> = Inr r
          \<and> banners (rendered r) = [Success ''Skipped the trade.'']
          \<and> balance (state r) = 10000)"
proof -
  have a: "0 \<le> scenario_index initial_state"
    by (simp add: initial_state_def)
  have b: "scenario_index initial_state < int (length scenarios)"
    by (simp add: initial_state_def scenarios_def)
  show ?thesis
    using skip_keeps_balance [OF a b, where ops = exact_ops and draws = "\<lambda>k. 100" and x = "''greedy''"] a b
    by (simp add: initial_state_def)
qed

subsection \<open>The liquidity chart\<close>

text \<open>
  C8. Whatever ten samples the generator yields, plot_chart draws the liquidity chart
  without an exception, and the one series it plots is the base series with 5 added at
  index 6 and 6 subtracted at index 7 (in float64 arithmetic); every other point is the
  base point. The base series has 10 points, so both indices are inside it.
\<close>

theorem liquidity_series:
  "\<exists>fig series.
     plot_chart ops draws ''liquidity'' = Inr fig
     \<and> plotted fig = [series]
     \<and> length (base_price ops draws) = 10
     \<and> length series = 10
     \<and> series ! 6 = fadd ops (base_price ops draws ! 6) (fconst ops 5)
     \<and> series ! 7 = fsub ops (base_price ops draws ! 7) (fconst ops 6)
     \<and> (\<forall>i < 10. i \<noteq> 6 \<longrightarrow> i \<noteq> 7 \<longrightarrow> series ! i = base_price ops draws ! i)"
proof -
  let ?base = "base_price ops draws"
  let ?series = "?base[6 := fadd ops (?base ! 6) (fconst ops 5),
                       7 := fsub ops (?base ! 7) (fconst ops 6)]"
  have len: "length ?base = 10"
    by (rule length_base_price)
  have "plotted (Pyplot [Plot (arange 10) ?series ''Price'',
                  Axhline (?base ! 5) ''red'' ''--'' ''Previous High'',
                  Set_title ''Liquidity Grab Example'',
                  Legend]) = [?series]"
    by simp
  moreover have "length ?series = 10"
    using len by simp
  moreover have "?series ! 6 = fadd ops (?base ! 6) (fconst ops 5)"
    using len by simp
  moreover have "?series ! 7 = fsub ops (?base ! 7) (fconst ops 6)"
    using len by simp
  moreover have "\<forall>i < 10. i \<noteq> 6 \<longrightarrow> i \<noteq> 7 \<longrightarrow> ?series ! i = ?base ! i"
    by simp
  ultimately show ?thesis
    using len plot_chart_liquidity [of ops draws] by blast
qed

theorem liquidity_series_witness:
  "base_price exact_ops (\<lambda>k. 100 + real k) = [100, 201, 303, 406, 510, 615, 721, 828, 936, 1045]
   \<and> (\<exists>fig series. plot_chart exact_ops (\<lambda>k. 100 + real k) ''liquidity'' = Inr fig
         \<and> plotted fig = [series]
         \<and> length series = 10
         \<and> series ! 5 = 615 \<and> series ! 6 = 726 \<and> series ! 7 = 822 \<and> series ! 8 = 936)"
proof -
  have base: "base_price exact_ops (\<lambda>k. 100 + real k) = [100, 201, 303, 406, 510, 615, 721, 828, 936, 1045]"
    by (simp add: base_price_def random_normal_def cumsum_def exact_ops_def upt_rec)
  obtain fig series where "plot_chart exact_ops (\<lambda>k. 100 + real k) ''liquidity'' = Inr fig"
    and "plotted fig = [series]" and "length series = 10"
    and "series ! 6 = 726" and "series ! 7 = 822"
    and rest: "\<forall>i < 10. i \<noteq> 6 \<longrightarrow> i \<noteq> 7 \<longrightarrow>
           series ! i = [100, 201, 303, 406, 510, 615, 721, 828, 936, 1045 :: real] ! i"
    using liquidity_series [of exact_ops "\<lambda>k. 100 + real k"] unfolding base
    by (auto simp: exact_ops_def)
  moreover have "series ! 5 = 615"
    using rest [rule_format, of 5] by simp
  moreover have "series ! 8 = 936"
    using rest [rule_format, of 8] by simp
  ultimately show ?thesis
    using base by blast
qed

subsection \<open>What a run does to the session state\<close>

lemma submit_decision_message:
  "fst (submit_decision sc e x s) = fst (submit_decision sc e x s')"
  by (simp add: submit_decision_def)

lemma submit_decision_delta:
  "balance (snd (submit_decision sc e x s)) - balance s
   = balance (snd (submit_decision sc e x s')) - balance s'"
  by (simp add: submit_decision_def)

text \<open>
  C7. A run of the script on a session whose index is not negative returns, and it
  leaves the session state as it found it unless the button was pressed while a scenario
  was shown: drawing the page, reading the scenario and plotting its chart (whatever the
  samples) change neither balance nor scenario_index, and neither does the game-over
  screen. When the state does change, the new state is the one the scoring rule computed
  for the submitted decision, with the index advanced.
\<close>

theorem state_changes_only_on_submit:
  assumes "0 \<le> scenario_index s"
  shows "\<exists>r. show_game ops draws s w = Inr r
     \<and> (\<not> submit w \<longrightarrow> balance (state r) = balance s \<and> scenario_index (state r) = scenario_index s)
     \<and> (\<not> scenario_index s < int (length scenarios) \<longrightarrow> state r = s)
     \<and> (state r \<noteq> s \<longrightarrow>
          submit w \<and> scenario_index s < int (length scenarios)
          \<and> state r = (snd (submit_decision (scenarios ! nat (scenario_index s))
                             (entry_choice w) (exit_choice w) s))
                         \<lparr>scenario_index := scenario_index s + 1\<rparr>)"
proof (cases "scenario_index s < 4")
  case True
  then obtain fig where "show_game ops draws s w =
     Inr (if submit w then
            \<lparr>rendered = page_top s @ scenario_page s (scenarios ! nat (scenario_index s)) (Pyplot fig)
               @ [Success (fst (submit_decision (scenarios ! nat (scenario_index s))
                                  (entry_choice w) (exit_choice w) s))],
             state = (snd (submit_decision (scenarios ! nat (scenario_index s))
                             (entry_choice w) (exit_choice w) s))
                       \<lparr>scenario_index := scenario_index s + 1\<rparr>,
             rerun = True\<rparr>
          else
            \<lparr>rendered = page_top s @ scenario_page s (scenarios ! nat (scenario_index s)) (Pyplot fig),
             state = s, rerun = False\<rparr>)"
    using show_game_playing [OF assms, of ops draws w] by blast
  with True show ?thesis
    by (simp add: length_scenarios)
next
  case False
  then have "show_game ops draws s w =
      Inr \<lparr>rendered = page_top s @ game_over s, state = s, rerun = False\<rparr>"
    by (simp add: show_game_over)
  with False show ?thesis
    by (simp add: length_scenarios)
qed

theorem state_changes_only_on_submit_witness:
  "0 \<le> scenario_index initial_state
   \<and> (\<exists>r. show_game exact_ops (\<lambda>k. 100) initial_state
            \<lparr>entry_choice = ''short'', exit_choice = ''smart'', submit = False\<rparr> = Inr r
         \<and> balance (state r) = 10000 \<and> scenario_index (state r) = 0)
   \<and> (\<exists>r. show_game exact_ops (\<lambda>k. 100) \<lparr>balance = 9700, scenario_index = 4\<rparr>
            \<lparr>entry_choice = ''short'', exit_choice = ''smart'', submit = True\<rparr> = Inr r
         \<and> state r = \<lparr>balance = 9700, scenario_index = 4\<rparr>)"
proof -
  have a: "0 \<le> scenario_index initial_state"
    by (simp add: initial_state_def)
  have b: "0 \<le> scenario_index \<lparr>balance = 9700, scenario_index = 4\<rparr>"
    by simp
  have "\<exists>r. show_game exact_ops (\<lambda>k. 100) initial_state
            \<lparr>entry_choice = ''short'', exit_choice = ''smart'', submit = False\<rparr> = Inr r
         \<and> balance (state r) = 10000 \<and> scenario_index (state r) = 0"
    using state_changes_only_on_submit [OF a, of exact_ops "\<lambda>k. 100"
        "\<lparr>entry_choice = ''short'', exit_choice = ''smart'', submit = False\<rparr>"]
    by (auto simp: initial_state_def)
  moreover have "\<exists>r. show_game exact_ops (\<lambda>k. 100) \<lparr>balance = 9700, scenario_index = 4\<rparr>
            \<lparr>entry_choice = ''short'', exit_choice = ''smart'', submit = True\<rparr> = Inr r
         \<and> state r = \<lparr>balance = 9700, scenario_index = 4\<rparr>"
    using state_changes_only_on_submit [OF b, of exact_ops "\<lambda>k. 100"
        "\<lparr>entry_choice = ''short'', exit_choice = ''smart'', submit = True\<rparr>"]
    by (auto simp: length_scenarios)
  ultimately show ?thesis
    using a by blast
qed

text \<open>
  C10. Two sessions at the same scenario, whatever their balances and their charts:
  submitting the same entry and exit choices shows the same banner in both and changes
  both balances by the same amount.
\<close>

theorem outcome_independent_of_balance:
  assumes "scenario_index s1 = scenario_index s2"
    and "0 \<le> scenario_index s1" and "scenario_index s1 < int (length scenarios)"
  shows "\<exists>r1 r2.
       show_game ops draws1 s1 \<lparr>entry_choice = e, exit_choice = x, submit = True\<rparr> = Inr r1
     \<and> show_game ops draws2 s2 \<lparr>entry_choice = e, exit_choice = x, submit = True\<rparr> = Inr r2
     \<and> banners (rendered r1) = banners (rendered r2)
     \<and> balance (state r1) - balance s1 = balance (state r2) - balance s2"
proof -
  let ?w = "\<lparr>entry_choice = e, exit_choice = x, submit = True\<rparr>"
  let ?sc = "scenarios ! nat (scenario_index s1)"
  have idx1: "scenario_index s1 < 4" and idx2: "scenario_index s2 < 4" and pos2: "0 \<le> scenario_index s2"
    using assms by (simp_all add: length_scenarios)
  obtain fig1 where r1: "show_game ops draws1 s1 ?w =
      Inr \<lparr>rendered = page_top s1 @ scenario_page s1 ?sc (Pyplot fig1)
             @ [Success (fst (submit_decision ?sc e x s1))],
           state = (snd (submit_decision ?sc e x s1))\<lparr>scenario_index := scenario_index s1 + 1\<rparr>,
           rerun = True\<rparr>"
    using show_game_playing [OF assms(2) idx1, of ops draws1 ?w] by auto
  obtain fig2 where r2: "show_game ops draws2 s2 ?w =
      Inr \<lparr>rendered = page_top s2 @ scenario_page s2 ?sc (Pyplot fig2)
             @ [Success (fst (submit_decision ?sc e x s2))],
           state = (snd (submit_decision ?sc e x s2))\<lparr>scenario_index := scenario_index s2 + 1\<rparr>,
           rerun = True\<rparr>"
    using show_game_playing [OF pos2 idx2, of ops draws2 ?w] assms(1) by auto
  have "banners (page_top s1 @ scenario_page s1 ?sc (Pyplot fig1) @ [Success (fst (submit_decision ?sc e x s1))])
      = banners (page_top s2 @ scenario_page s2 ?sc (Pyplot fig2) @ [Success (fst (submit_decision ?sc e x s2))])"
    using submit_decision_message [of ?sc e x s1 s2]
    by (simp add: banners_append banners_page_top banners_scenario_page)
  moreover have "balance (snd (submit_decision ?sc e x s1)) - balance s1
      = balance (snd (submit_decision ?sc e x s2)) - balance s2"
    by (rule submit_decision_delta)
  ultimately show ?thesis
    using r1 r2 by simp
qed

theorem outcome_independent_of_balance_witness:
  "\<exists>r1 r2.
       show_game exact_ops (\<lambda>k. 100) initial_state
         \<lparr>entry_choice = ''short'', exit_choice = ''smart'', submit = True\<rparr> = Inr r1
     \<and> show_game exact_ops (\<lambda>k. 99) \<lparr>balance = 250, scenario_index = 0\<rparr>
         \<lparr>entry_choice = ''short'', exit_choice = ''smart'', submit = True\<rparr> = Inr r2
     \<and> banners (rendered r1) = banners (rendered r2)
     \<and> balance (state r1) - 10000 = balance (state r2) - 250"
proof -
  have a: "scenario_index initial_state = scenario_index \<lparr>balance = 250, scenario_index = 0\<rparr>"
    by (simp add: initial_state_def)
  have b: "0 \<le> scenario_index initial_state"
    by (simp add: initial_state_def)
  have c: "scenario_index initial_state < int (length scenarios)"
    by (simp add: initial_state_def length_scenarios)
  show ?thesis
    using outcome_independent_of_balance [OF a b c, of exact_ops "\<lambda>k. 100" "''short''" "''smart''" "\<lambda>k. 99"]
    by (simp add: initial_state_def)
qed

subsection \<open>Sessions\<close>

text \<open>The scoring rule changes the balance by the delta of the specification's table.\<close>

lemma submit_decision_balance:
  "balance (snd (submit_decision sc e x s)) = balance s + spec_balance_delta sc e x"
  by (simp add: submit_decision_def spec_balance_delta_def)

lemma spec_balance_delta_bounds: "- 300 \<le> spec_balance_delta sc e x \<and> spec_balance_delta sc e x \<le> 500"
  by (simp add: spec_balance_delta_def)

text \<open>One run, as a step on the session state.\<close>

lemma show_game_step:
  assumes "0 \<le> scenario_index s"
  shows "\<exists>r. show_game ops d s w = Inr r
     \<and> scenario_index (state r) = (if submit w \<and> scenario_index s < 4 then scenario_index s + 1 else scenario_index s)
     \<and> balance (state r) =
         (if submit w \<and> scenario_index s < 4
          then balance s + spec_balance_delta (scenarios ! nat (scenario_index s)) (entry_choice w) (exit_choice w)
          else balance s)"
proof (cases "scenario_index s < 4")
  case True
  then obtain fig where "show_game ops d s w =
     Inr (if submit w then
            \<lparr>rendered = page_top s @ scenario_page s (scenarios ! nat (scenario_index s)) (Pyplot fig)
               @ [Success (fst (submit_decision (scenarios ! nat (scenario_index s))
                                  (entry_choice w) (exit_choice w) s))],
             state = (snd (submit_decision (scenarios ! nat (scenario_index s))
                             (entry_choice w) (exit_choice w) s))
                       \<lparr>scenario_index := scenario_index s + 1\<rparr>,
             rerun = True\<rparr>
          else
            \<lparr>rendered = page_top s @ scenario_page s (scenarios ! nat (scenario_index s)) (Pyplot fig),
             state = s, rerun = False\<rparr>)"
    using show_game_playing [OF assms, of ops d w] by blast
  with True show ?thesis
    by (simp add: submit_decision_balance)
next
  case False
  then show ?thesis
    by (simp add: show_game_over)
qed

lemma presses_Cons:
  "presses ((d, w) # rest) = (if submit w then w # presses rest else presses rest)"
  by (simp add: presses_def)

lemma drop_scenarios:
  assumes "0 \<le> i" and "i < 4"
  shows "drop (nat i) scenarios = scenarios ! nat i # drop (nat (i + 1)) scenarios"
proof -
  have "nat i < length scenarios"
    using assms by (simp add: length_scenarios)
  then have "drop (nat i) scenarios = scenarios ! nat i # drop (Suc (nat i)) scenarios"
    by (simp add: Cons_nth_drop_Suc)
  moreover have "Suc (nat i) = nat (i + 1)"
    using assms by simp
  ultimately show ?thesis
    by simp
qed

text \<open>
  A session from a state with room for all its decisions: it returns, every decision
  advances the index by one and changes the balance by its delta.
\<close>

lemma play_decisions:
  "0 \<le> scenario_index s \<Longrightarrow> scenario_index s + int (length (presses runs)) \<le> 4 \<Longrightarrow>
   \<exists>s'. play ops s runs = Inr s'
     \<and> scenario_index s' = scenario_index s + int (length (presses runs))
     \<and> balance s' = balance s + spec_total_delta (drop (nat (scenario_index s)) scenarios) (presses runs)"
proof (induction runs arbitrary: s)
  case Nil
  then show ?case
    by (simp add: presses_def spec_total_delta_def)
next
  case (Cons run rest)
  obtain d w where run: "run = (d, w)"
    by (cases run)
  obtain r where r: "show_game ops d s w = Inr r"
    and idx: "scenario_index (state r) = (if submit w \<and> scenario_index s < 4 then scenario_index s + 1 else scenario_index s)"
    and bal: "balance (state r) =
         (if submit w \<and> scenario_index s < 4
          then balance s + spec_balance_delta (scenarios ! nat (scenario_index s)) (entry_choice w) (exit_choice w)
          else balance s)"
    using show_game_step [OF Cons.prems(1), of ops d w] by blast
  show ?case
  proof (cases "submit w")
    case True
    with Cons.prems(2) run have room: "scenario_index s < 4"
      and rest: "scenario_index s + 1 + int (length (presses rest)) \<le> 4"
      by (simp_all add: presses_Cons)
    from idx bal True room have idx': "scenario_index (state r) = scenario_index s + 1"
      and bal': "balance (state r) = balance s
           + spec_balance_delta (scenarios ! nat (scenario_index s)) (entry_choice w) (exit_choice w)"
      by simp_all
    have "0 \<le> scenario_index (state r)"
      using idx' Cons.prems(1) by simp
    moreover have "scenario_index (state r) + int (length (presses rest)) \<le> 4"
      using idx' rest by simp
    ultimately obtain s' where "play ops (state r) rest = Inr s'"
      and "scenario_index s' = scenario_index (state r) + int (length (presses rest))"
      and "balance s' = balance (state r)
             + spec_total_delta (drop (nat (scenario_index (state r))) scenarios) (presses rest)"
      using Cons.IH [of "state r"] by blast
    then show ?thesis
      using r run True idx' bal' drop_scenarios [OF Cons.prems(1) room]
      by (simp add: and_then_def presses_Cons spec_total_delta_def)
  next
    case False
    with idx bal have same: "scenario_index (state r) = scenario_index s" "balance (state r) = balance s"
      by simp_all
    have "0 \<le> scenario_index (state r)"
      using same Cons.prems(1) by simp
    moreover have "scenario_index (state r) + int (length (presses rest)) \<le> 4"
      using same Cons.prems(2) run False by (simp add: presses_Cons)
    ultimately obtain s' where "play ops (state r) rest = Inr s'"
      and "scenario_index s' = scenario_index (state r) + int (length (presses rest))"
      and "balance s' = balance (state r)
             + spec_total_delta (drop (nat (scenario_index (state r))) scenarios) (presses rest)"
      using Cons.IH [of "state r"] by blast
    then show ?thesis
      using r run False same
      by (simp add: and_then_def presses_Cons)
  qed
qed

text \<open>Any session from a state with its index between 0 and 4: it returns, and the index stays there.\<close>

lemma play_index:
  "0 \<le> scenario_index s \<Longrightarrow> scenario_index s \<le> 4 \<Longrightarrow>
   \<exists>s'. play ops s runs = Inr s' \<and> scenario_index s \<le> scenario_index s' \<and> scenario_index s' \<le> 4"
proof (induction runs arbitrary: s)
  case Nil
  then show ?case
    by simp
next
  case (Cons run rest)
  obtain d w where run: "run = (d, w)"
    by (cases run)
  obtain r where r: "show_game ops d s w = Inr r"
    and idx: "scenario_index (state r) = (if submit w \<and> scenario_index s < 4 then scenario_index s + 1 else scenario_index s)"
    using show_game_step [OF Cons.prems(1), of ops d w] by blast
  have lo: "scenario_index s \<le> scenario_index (state r)" and hi: "scenario_index (state r) \<le> 4"
    using idx Cons.prems(2) by (simp_all split: if_splits)
  then have "0 \<le> scenario_index (state r)"
    using Cons.prems(1) by simp
  then obtain s' where "play ops (state r) rest = Inr s'"
    and "scenario_index (state r) \<le> scenario_index s'" and "scenario_index s' \<le> 4"
    using Cons.IH [of "state r"] hi by blast
  then show ?case
    using r run lo by (simp add: and_then_def)
qed

lemma spec_total_delta_bounds:
  "- 300 * int (length ws) \<le> spec_total_delta scs ws \<and> spec_total_delta scs ws \<le> 500 * int (length ws)"
proof (induction ws arbitrary: scs)
  case Nil
  then show ?case
    by (simp add: spec_total_delta_def)
next
  case (Cons w ws)
  show ?case
  proof (cases scs)
    case Nil
    then show ?thesis
      by (simp add: spec_total_delta_def)
  next
    case scs: (Cons sc rest)
    have "spec_total_delta scs (w # ws)
        = spec_balance_delta sc (entry_choice w) (exit_choice w) + spec_total_delta rest ws"
      using scs by (simp add: spec_total_delta_def)
    then show ?thesis
      using Cons.IH [of rest] spec_balance_delta_bounds [of sc "entry_choice w" "exit_choice w"]
      by simp
  qed
qed

text \<open>What the two pages show: only the scenario page has the button, only the
  game-over page has the header "Game Over".\<close>

lemma page_of_run:
  assumes "0 \<le> scenario_index s"
  shows "\<exists>r. show_game ops d s w = Inr r
     \<and> (Button ''Submit Decision'' \<in> set (rendered r)) = (scenario_index s < 4)
     \<and> (Header ''Game Over'' \<in> set (rendered r)) = (\<not> scenario_index s < 4)"
proof (cases "scenario_index s < 4")
  case True
  then have "nat (scenario_index s) < 4"
    using assms by simp
  then have "nat (scenario_index s) = 0 \<or> nat (scenario_index s) = 1
      \<or> nat (scenario_index s) = 2 \<or> nat (scenario_index s) = 3"
    by arith
  then have name: "name (scenarios ! nat (scenario_index s)) \<noteq> ''Game Over''"
    by (auto simp: scenarios_def)
  obtain fig where "show_game ops d s w =
     Inr (if submit w then
            \<lparr>rendered = page_top s @ scenario_page s (scenarios ! nat (scenario_index s)) (Pyplot fig)
               @ [Success (fst (submit_decision (scenarios ! nat (scenario_index s))
                                  (entry_choice w) (exit_choice w) s))],
             state = (snd (submit_decision (scenarios ! nat (scenario_index s))
                             (entry_choice w) (exit_choice w) s))
                       \<lparr>scenario_index := scenario_index s + 1\<rparr>,
             rerun = True\<rparr>
          else
            \<lparr>rendered = page_top s @ scenario_page s (scenarios ! nat (scenario_index s)) (Pyplot fig),
             state = s, rerun = False\<rparr>)"
    using show_game_playing [OF assms True, of ops d w] by blast
  with True name show ?thesis
    by (simp add: page_top_def scenario_page_def concepts_def)
next
  case False
  then have "show_game ops d s w =
      Inr \<lparr>rendered = page_top s @ game_over s, state = s, rerun = False\<rparr>"
    by (simp add: show_game_over)
  with False show ?thesis
    by (simp add: page_top_def game_over_def concepts_def)
qed

text \<open>
  C4. In a session of k decisions, k at most 4 (with any number of runs without a press
  between them), the session returns with scenario_index equal to k: every submit, skip
  included, advanced it by exactly one. While k is below 4 the next run shows the submit
  button, and pressing it gives index k + 1. After the fourth decision the next run
  shows the game-over screen instead of a scenario: no button, and neither the index nor
  the balance changes whatever the widgets return.
\<close>

theorem submit_advances_index:
  assumes "length (presses runs) = k" and "k \<le> 4"
  shows "\<exists>s. play ops initial_state runs = Inr s
     \<and> scenario_index s = int k
     \<and> (\<exists>r. show_game ops d s w = Inr r
          \<and> (Button ''Submit Decision'' \<in> set (rendered r)) = (k < 4)
          \<and> (Header ''Game Over'' \<in> set (rendered r)) = (k = 4)
          \<and> scenario_index (state r) = (if submit w \<and> k < 4 then int k + 1 else int k)
          \<and> (k = 4 \<longrightarrow> state r = s \<and> rendered r = page_top s @ game_over s))"
proof -
  have "0 \<le> scenario_index initial_state"
    and "scenario_index initial_state + int (length (presses runs)) \<le> 4"
    using assms by (simp_all add: initial_state_def)
  then obtain s where s: "play ops initial_state runs = Inr s"
    and idx: "scenario_index s = int k"
    using play_decisions [of initial_state runs ops] assms(1) by (auto simp: initial_state_def)
  have pos: "0 \<le> scenario_index s"
    using idx by simp
  obtain r where r: "show_game ops d s w = Inr r"
    and "(Button ''Submit Decision'' \<in> set (rendered r)) = (scenario_index s < 4)"
    and "(Header ''Game Over'' \<in> set (rendered r)) = (\<not> scenario_index s < 4)"
    using page_of_run [OF pos, of ops d w] by blast
  then have page: "(Button ''Submit Decision'' \<in> set (rendered r)) = (k < 4)"
    "(Header ''Game Over'' \<in> set (rendered r)) = (k = 4)"
    using idx assms(2) by auto
  have step: "scenario_index (state r) = (if submit w \<and> k < 4 then int k + 1 else int k)"
    using show_game_step [OF pos, of ops d w] r idx by auto
  have over: "k = 4 \<longrightarrow> state r = s \<and> rendered r = page_top s @ game_over s"
    using show_game_over [of s ops d w] r idx by auto
  from s idx r page step over show ?thesis
    by blast
qed

theorem submit_advances_index_witness:
  "\<exists>s. play exact_ops initial_state
          [(\<lambda>k. 100, \<lparr>entry_choice = ''skip'', exit_choice = ''smart'', submit = True\<rparr>),
           (\<lambda>k. 101, \<lparr>entry_choice = ''long'', exit_choice = ''smart'', submit = False\<rparr>),
           (\<lambda>k. 102, \<lparr>entry_choice = ''long'', exit_choice = ''smart'', submit = True\<rparr>),
           (\<lambda>k. 103, \<lparr>entry_choice = ''short'', exit_choice = ''greedy'', submit = True\<rparr>),
           (\<lambda>k. 104, \<lparr>entry_choice = ''long'', exit_choice = ''greedy'', submit = True\<rparr>)] = Inr s
     \<and> scenario_index s = 4
     \<and> (\<exists>r. show_game exact_ops (\<lambda>k. 105) s
               \<lparr>entry_choice = ''long'', exit_choice = ''smart'', submit = True\<rparr> = Inr r
          \<and> Button ''Submit Decision'' \<notin> set (rendered r)
          \<and> Header ''Game Over'' \<in> set (rendered r)
          \<and> scenario_index (state r) = 4
          \<and> state r = s)"
proof -
  let ?runs = "[(\<lambda>k. 100 :: real, \<lparr>entry_choice = ''skip'', exit_choice = ''smart'', submit = True\<rparr>),
           (\<lambda>k. 101, \<lparr>entry_choice = ''long'', exit_choice = ''smart'', submit = False\<rparr>),
           (\<lambda>k. 102, \<lparr>entry_choice = ''long'', exit_choice = ''smart'', submit = True\<rparr>),
           (\<lambda>k. 103, \<lparr>entry_choice = ''short'', exit_choice = ''greedy'', submit = True\<rparr>),
           (\<lambda>k. 104, \<lparr>entry_choice = ''long'', exit_choice = ''greedy'', submit = True\<rparr>)]"
  have a: "length (presses ?runs) = 4"
    by (simp add: presses_def)
  have b: "(4::nat) \<le> 4"
    by simp
  show ?thesis
    using submit_advances_index [OF a b, of exact_ops "\<lambda>k. 105"
        "\<lparr>entry_choice = ''long'', exit_choice = ''smart'', submit = True\<rparr>"]
    by auto
qed


lemma banners_game_over:
  "banners (page_top s @ game_over s) =
     (if balance s > 10000 then [Success ''Well done! You made profitable decisions.'']
      else [Error ''You need more practice. Review the concepts and try again.''])"
  by (simp add: banners_append banners_page_top) (simp add: banners_def game_over_def)

text \<open>
  C5. In a session of four decisions the final balance is 10000 plus the sum of the
  deltas the scoring table gives for the four decisions, the i-th decision scored on the
  i-th scenario. The run after it shows the game-over screen, whose one banner is the
  success message "Well done! You made profitable decisions." exactly when the final
  balance is above 10000, and the error message "You need more practice. Review the
  concepts and try again." exactly when it is not (so at exactly 10000 as well).
\<close>

theorem final_balance_and_verdict:
  assumes "length (presses runs) = 4"
  shows "\<exists>s. play ops initial_state runs = Inr s
     \<and> balance s = 10000 + spec_total_delta scenarios (presses runs)
     \<and> (\<exists>r. show_game ops d s w = Inr r
          \<and> Header ''Game Over'' \<in> set (rendered r)
          \<and> (banners (rendered r) = [Success ''Well done! You made profitable decisions.''])
              = (balance s > 10000)
          \<and> (banners (rendered r) = [Error ''You need more practice. Review the concepts and try again.''])
              = (balance s \<le> 10000))"
proof -
  have "0 \<le> scenario_index initial_state"
    and "scenario_index initial_state + int (length (presses runs)) \<le> 4"
    using assms by (simp_all add: initial_state_def)
  then obtain s where s: "play ops initial_state runs = Inr s"
    and idx: "scenario_index s = 4"
    and bal: "balance s = 10000 + spec_total_delta scenarios (presses runs)"
    using play_decisions [of initial_state runs ops] assms by (auto simp: initial_state_def)
  have r: "show_game ops d s w = Inr \<lparr>rendered = page_top s @ game_over s, state = s, rerun = False\<rparr>"
    using idx by (simp add: show_game_over)
  have "Header ''Game Over'' \<in> set (page_top s @ game_over s)"
    by (simp add: game_over_def)
  moreover have "(banners (page_top s @ game_over s) = [Success ''Well done! You made profitable decisions.''])
      = (balance s > 10000)"
    by (simp add: banners_game_over)
  moreover have "(banners (page_top s @ game_over s)
        = [Error ''You need more practice. Review the concepts and try again.''])
      = (balance s \<le> 10000)"
    by (auto simp: banners_game_over)
  ultimately show ?thesis
    using s bal r by simp
qed

theorem final_balance_and_verdict_witness:
  "\<exists>s. play exact_ops initial_state
          [(\<lambda>k. 100, \<lparr>entry_choice = ''short'', exit_choice = ''smart'', submit = True\<rparr>),
           (\<lambda>k. 101, \<lparr>entry_choice = ''short'', exit_choice = ''smart'', submit = True\<rparr>),
           (\<lambda>k. 102, \<lparr>entry_choice = ''long'', exit_choice = ''greedy'', submit = True\<rparr>),
           (\<lambda>k. 103, \<lparr>entry_choice = ''skip'', exit_choice = ''greedy'', submit = True\<rparr>)] = Inr s
     \<and> balance s = 10000 + (500 - 300 - 200 + 0)
     \<and> (\<exists>r. show_game exact_ops (\<lambda>k. 104) s
               \<lparr>entry_choice = ''long'', exit_choice = ''smart'', submit = False\<rparr> = Inr r
          \<and> Header ''Game Over'' \<in> set (rendered r)
          \<and> banners (rendered r) = [Error ''You need more practice. Review the concepts and try again.''])"
proof -
  let ?runs = "[(\<lambda>k. 100 :: real, \<lparr>entry_choice = ''short'', exit_choice = ''smart'', submit = True\<rparr>),
           (\<lambda>k. 101, \<lparr>entry_choice = ''short'', exit_choice = ''smart'', submit = True\<rparr>),
           (\<lambda>k. 102, \<lparr>entry_choice = ''long'', exit_choice = ''greedy'', submit = True\<rparr>),
           (\<lambda>k. 103, \<lparr>entry_choice = ''skip'', exit_choice = ''greedy'', submit = True\<rparr>)]"
  have a: "length (presses ?runs) = 4"
    by (simp add: presses_def)
  have b: "spec_total_delta scenarios (presses ?runs) = 500 - 300 - 200 + 0"
    by (simp add: presses_def spec_total_delta_def scenarios_def spec_balance_delta_def)
  show ?thesis
    using final_balance_and_verdict [OF a, of exact_ops "\<lambda>k. 104"
        "\<lparr>entry_choice = ''long'', exit_choice = ''smart'', submit = False\<rparr>"]
    unfolding b by auto
qed

text \<open>
  C6. Every session from the initial state returns, in a state whose scenario_index is
  between 0 and 4, the number of scenarios. A run in such a state shows the scenario
  page with the submit button exactly when the index is below 4, and the game-over
  screen exactly when the index is 4. A run never lowers the index; it changes the
  index only when the button was pressed, and then by one; at index 4 it leaves the
  whole state as it is, so nothing leads from the game-over screen back to a scenario.
\<close>

theorem index_stays_in_range:
  "\<exists>s. play ops initial_state runs = Inr s
     \<and> 0 \<le> scenario_index s \<and> scenario_index s \<le> int (length scenarios)
     \<and> (\<exists>r. show_game ops d s w = Inr r
          \<and> (Button ''Submit Decision'' \<in> set (rendered r)) = (scenario_index s < 4)
          \<and> (Header ''Game Over'' \<in> set (rendered r)) = (scenario_index s = 4)
          \<and> scenario_index s \<le> scenario_index (state r)
          \<and> scenario_index (state r) \<le> 4
          \<and> (scenario_index s = 4 \<longrightarrow> state r = s)
          \<and> (scenario_index (state r) \<noteq> scenario_index s \<longrightarrow>
               submit w \<and> scenario_index s < 4 \<and> scenario_index (state r) = scenario_index s + 1))"
proof -
  obtain s where s: "play ops initial_state runs = Inr s"
    and lo: "0 \<le> scenario_index s" and hi: "scenario_index s \<le> 4"
    using play_index [of initial_state ops runs] by (auto simp: initial_state_def)
  obtain r where r: "show_game ops d s w = Inr r"
    and "(Button ''Submit Decision'' \<in> set (rendered r)) = (scenario_index s < 4)"
    and "(Header ''Game Over'' \<in> set (rendered r)) = (\<not> scenario_index s < 4)"
    using page_of_run [OF lo, of ops d w] by blast
  then have page: "(Button ''Submit Decision'' \<in> set (rendered r)) = (scenario_index s < 4)"
    "(Header ''Game Over'' \<in> set (rendered r)) = (scenario_index s = 4)"
    using hi by auto
  have step: "scenario_index (state r) =
      (if submit w \<and> scenario_index s < 4 then scenario_index s + 1 else scenario_index s)"
    using show_game_step [OF lo, of ops d w] r by auto
  have mono: "scenario_index s \<le> scenario_index (state r)" "scenario_index (state r) \<le> 4"
    using step hi by (simp_all split: if_splits)
  have change: "scenario_index (state r) \<noteq> scenario_index s \<longrightarrow>
      submit w \<and> scenario_index s < 4 \<and> scenario_index (state r) = scenario_index s + 1"
    using step by (simp split: if_splits)
  have over: "scenario_index s = 4 \<longrightarrow> state r = s"
    using show_game_over [of s ops d w] r by auto
  from s lo hi r page mono change over show ?thesis
    by (simp add: length_scenarios)
qed

theorem index_stays_in_range_witness:
  "\<exists>s. play exact_ops initial_state
          [(\<lambda>k. 100, \<lparr>entry_choice = ''short'', exit_choice = ''smart'', submit = True\<rparr>),
           (\<lambda>k. 101, \<lparr>entry_choice = ''long'', exit_choice = ''smart'', submit = False\<rparr>)] = Inr s
     \<and> 0 \<le> scenario_index s \<and> scenario_index s \<le> 4
     \<and> (\<exists>r. show_game exact_ops (\<lambda>k. 102) s
               \<lparr>entry_choice = ''long'', exit_choice = ''smart'', submit = True\<rparr> = Inr r
          \<and> scenario_index s \<le> scenario_index (state r)
          \<and> scenario_index (state r) \<le> 4)"
  using index_stays_in_range [of exact_ops
      "[(\<lambda>k. 100, \<lparr>entry_choice = ''short'', exit_choice = ''smart'', submit = True\<rparr>),
        (\<lambda>k. 101, \<lparr>entry_choice = ''long'', exit_choice = ''smart'', submit = False\<rparr>)]"
      "\<lambda>k. 102" "\<lparr>entry_choice = ''long'', exit_choice = ''smart'', submit = True\<rparr>"]
  by (auto simp: length_scenarios)

text \<open>
  C9. After a session of k decisions from the initial state, k at most 4, the balance is
  at least 10000 - 300 k and at most 10000 + 500 k; so it always lies between 8800
  and 12000 and is positive.
\<close>

theorem balance_bounds:
  assumes "length (presses runs) = k" and "k \<le> 4"
  shows "\<exists>s. play ops initial_state runs = Inr s
     \<and> 10000 - 300 * int k \<le> balance s \<and> balance s \<le> 10000 + 500 * int k
     \<and> 8800 \<le> balance s \<and> balance s \<le> 12000 \<and> 0 < balance s"
proof -
  have "0 \<le> scenario_index initial_state"
    and "scenario_index initial_state + int (length (presses runs)) \<le> 4"
    using assms by (simp_all add: initial_state_def)
  then obtain s where s: "play ops initial_state runs = Inr s"
    and bal: "balance s = 10000 + spec_total_delta scenarios (presses runs)"
    using play_decisions [of initial_state runs ops] by (auto simp: initial_state_def)
  have "- 300 * int k \<le> spec_total_delta scenarios (presses runs)"
    and "spec_total_delta scenarios (presses runs) \<le> 500 * int k"
    using spec_total_delta_bounds [of "presses runs" scenarios] assms(1) by simp_all
  then have "10000 - 300 * int k \<le> balance s" and "balance s \<le> 10000 + 500 * int k"
    using bal by simp_all
  then show ?thesis
    using s assms(2) by auto
qed

theorem balance_bounds_witness:
  "\<exists>s. play exact_ops initial_state
          [(\<lambda>k. 100, \<lparr>entry_choice = ''long'', exit_choice = ''smart'', submit = True\<rparr>),
           (\<lambda>k. 101, \<lparr>entry_choice = ''short'', exit_choice = ''smart'', submit = True\<rparr>)] = Inr s
     \<and> 9400 \<le> balance s \<and> balance s \<le> 11000
     \<and> 8800 \<le> balance s \<and> balance s \<le> 12000 \<and> 0 < balance s"
proof -
  let ?runs = "[(\<lambda>k. 100 :: real, \<lparr>entry_choice = ''long'', exit_choice = ''smart'', submit = True\<rparr>),
           (\<lambda>k. 101, \<lparr>entry_choice = ''short'', exit_choice = ''smart'', submit = True\<rparr>)]"
  have a: "length (presses ?runs) = 2"
    by (simp add: presses_def)
  have b: "(2::nat) \<le> 4"
    by simp
  show ?thesis
    using balance_bounds [OF a b, of exact_ops]
    by simp
qed

end
